theory Spec2Isabelle
  imports Complex_Main
begin

section \<open>The puppeteer adapter: screenshot triggers, configuration, teardown\<close>

text \<open>
  A shallow embedding of \<^verbatim>\<open>src/main.ts\<close>. The adapter is one class with one field
  (\<^verbatim>\<open>browser\<close>) and six methods. Everything it does besides reading and writing that
  field is a call to a collaborator: the state store, the logger, the browser and its
  pages, the unload callback. Each such call is appended to a trace, and the outcome of
  the call (a value, or a thrown error) is taken from a record of collaborators over
  which the theorems quantify. One handler invocation is run from start to end; the
  interleaving of several handlers at their \<^verbatim>\<open>await\<close> points is outside the model.
\<close>

subsection \<open>Values\<close>

text \<open>
  A JavaScript number. The code never computes with one: it tests the type tag and the
  truthiness and passes the value on, so the finite values are taken as reals (both
  zeros are \<open>Num 0\<close>).
\<close>

datatype jsnumber = NaN | PosInfinity | NegInfinity | Num real

text \<open>\<^verbatim>\<open>ioBroker.StateValue = string | number | boolean | null\<close>\<close>

datatype StateValue = VNull | VBool bool | VNumber jsnumber | VString string

text \<open>The fields of \<^verbatim>\<open>ioBroker.State\<close> that the adapter reads.\<close>

record State =
  val :: StateValue
  ack :: bool

text \<open>JavaScript truthiness of a state value.\<close>

fun truthy :: "StateValue \<Rightarrow> bool" where
  "truthy VNull = False"
| "truthy (VBool b) = b"
| "truthy (VNumber NaN) = False"
| "truthy (VNumber PosInfinity) = True"
| "truthy (VNumber NegInfinity) = True"
| "truthy (VNumber (Num r)) = (r \<noteq> 0)"
| "truthy (VString s) = (s \<noteq> [])"

text \<open>An optional value (\<^verbatim>\<open>undefined\<close> is \<open>None\<close>) used as a condition.\<close>

fun truthy_opt :: "StateValue option \<Rightarrow> bool" where
  "truthy_opt None = False"
| "truthy_opt (Some v) = truthy v"

text \<open>
  \<^verbatim>\<open>typeof v === 'number'\<close> and \<^verbatim>\<open>typeof v === 'string'\<close>: \<open>Some\<close> of the number or
  string when the test holds.
\<close>

fun as_number :: "StateValue \<Rightarrow> jsnumber option" where
  "as_number (VNumber n) = Some n"
| "as_number _ = None"

fun as_string :: "StateValue \<Rightarrow> string option" where
  "as_string (VString s) = Some s"
| "as_string _ = None"

text \<open>
  \<^verbatim>\<open>Partial<ScreenshotClip>\<close>: the four attributes, each set or not. The cast
  \<^verbatim>\<open>options as ScreenshotClip\<close> changes nothing at run time, so one record serves both.
\<close>

record ScreenshotClip =
  clip_x :: "jsnumber option"
  clip_y :: "jsnumber option"
  clip_height :: "jsnumber option"
  clip_width :: "jsnumber option"

datatype ClipAttribute = AttrX | AttrY | AttrHeight | AttrWidth

text \<open>\<^verbatim>\<open>options[attributeName] = value\<close>\<close>

fun assign :: "ClipAttribute \<Rightarrow> jsnumber \<Rightarrow> ScreenshotClip \<Rightarrow> ScreenshotClip" where
  "assign AttrX n c = c\<lparr>clip_x := Some n\<rparr>"
| "assign AttrY n c = c\<lparr>clip_y := Some n\<rparr>"
| "assign AttrHeight n c = c\<lparr>clip_height := Some n\<rparr>"
| "assign AttrWidth n c = c\<lparr>clip_width := Some n\<rparr>"

text \<open>
  The fields of \<^verbatim>\<open>ScreenshotOptions\<close> that the adapter sets. \<^verbatim>\<open>path\<close> holds whatever
  value the \<^verbatim>\<open>filename\<close> state has (the cast to string is unchecked).
\<close>

record ScreenshotOptions =
  path :: "StateValue option"
  fullPage :: "bool option"
  clip :: "ScreenshotClip option"

subsection \<open>Collaborators, errors and the trace\<close>

datatype error = Error (message: string)

type_synonym Browser = nat
type_synonym Page = nat

text \<open>The log lines of the source, by template and interpolated values.\<close>

datatype logline =
    ReadyToTakeScreenshots
  | ClosingBrowser
  | PleaseSpecifyFilename
  | ScreenshotOptionsAre ScreenshotOptions
  | TakingScreenshotOf StateValue
  | ScreenshotSaved
  | CouldNotTakeScreenshot StateValue string
  | IgnoringClipFullPage
  | IgnoringClipNotConfigured string
  | WaitingForSelector string
  | WaitingForTimeout jsnumber

datatype event =
    LogInfo logline
  | LogDebug logline
  | LogError logline
  | SubscribeStates string
  | Launch
  | GetState string
  | SetState string StateValue bool
  | NewPage Browser
  | Goto Page StateValue
  | WaitForSelector Page string
  | WaitForTimeout Page jsnumber
  | Screenshot Page ScreenshotOptions
  | PageClose Page
  | BrowserClose Browser
  | Callback

text \<open>
  What each collaborator answers: \<open>Inl\<close> is a thrown error or rejected promise. The
  unload callback answers by the number of times it has been invoked before.
\<close>

record collaborators =
  store_read :: "string \<Rightarrow> error + State option"
  store_write :: "string \<Rightarrow> StateValue \<Rightarrow> bool \<Rightarrow> error + unit"
  puppeteer_launch :: "error + Browser"
  browser_newPage :: "Browser \<Rightarrow> error + Page"
  browser_close :: "Browser \<Rightarrow> error + unit"
  page_goto :: "Page \<Rightarrow> StateValue \<Rightarrow> error + unit"
  page_waitForSelector :: "Page \<Rightarrow> string \<Rightarrow> error + unit"
  page_waitForTimeout :: "Page \<Rightarrow> jsnumber \<Rightarrow> error + unit"
  page_screenshot :: "Page \<Rightarrow> ScreenshotOptions \<Rightarrow> error + unit"
  page_close :: "Page \<Rightarrow> error + unit"

text \<open>The adapter's field and the calls made so far, oldest first.\<close>

record world =
  browser :: "Browser option"
  trace :: "event list"

type_synonym 'a prog = "world \<Rightarrow> (error + 'a) \<times> world"

definition return :: "'a \<Rightarrow> 'a prog" where
  "return a w = (Inr a, w)"

text \<open>Sequencing: an error of the first part skips the rest.\<close>

definition seq :: "'a prog \<Rightarrow> ('a \<Rightarrow> 'b prog) \<Rightarrow> 'b prog" where
  "seq m f w = (case m w of (Inl e, w') \<Rightarrow> (Inl e, w') | (Inr a, w') \<Rightarrow> f a w')"

text \<open>\<^verbatim>\<open>try { m } catch (e) { h(e) }\<close>\<close>

definition try_catch :: "'a prog \<Rightarrow> (error \<Rightarrow> 'a prog) \<Rightarrow> 'a prog" where
  "try_catch m h w = (case m w of (Inl e, w') \<Rightarrow> h e w' | (Inr a, w') \<Rightarrow> (Inr a, w'))"

text \<open>A call to a collaborator: recorded, then answered.\<close>

definition call :: "event \<Rightarrow> error + 'a \<Rightarrow> 'a prog" where
  "call ev r w = (r, w\<lparr>trace := trace w @ [ev]\<rparr>)"

definition log_info :: "logline \<Rightarrow> unit prog" where
  "log_info l = call (LogInfo l) (Inr ())"

definition log_debug :: "logline \<Rightarrow> unit prog" where
  "log_debug l = call (LogDebug l) (Inr ())"

definition log_error :: "logline \<Rightarrow> unit prog" where
  "log_error l = call (LogError l) (Inr ())"

definition getStateAsync :: "collaborators \<Rightarrow> string \<Rightarrow> State option prog" where
  "getStateAsync env k = call (GetState k) (store_read env k)"

definition setStateAsync :: "collaborators \<Rightarrow> string \<Rightarrow> StateValue \<Rightarrow> bool \<Rightarrow> unit prog" where
  "setStateAsync env k v a = call (SetState k v a) (store_write env k v a)"

text \<open>
  \<^verbatim>\<open>this.browser.newPage()\<close>: the field is read again at this point; a method call on
  \<^verbatim>\<open>undefined\<close> throws a TypeError.
\<close>

definition newPage :: "collaborators \<Rightarrow> Page prog" where
  "newPage env w =
     (case browser w of
        None \<Rightarrow> (Inl (Error ''Cannot read properties of undefined''), w)
      | Some b \<Rightarrow> call (NewPage b) (browser_newPage env b) w)"

text \<open>The \<open>n\<close>-th invocation of the unload callback, \<open>n\<close> counted from the trace.\<close>

definition invoke :: "(nat \<Rightarrow> error + unit) \<Rightarrow> unit prog" where
  "invoke callback w = call Callback (callback (count_list (trace w) Callback)) w"

subsection \<open>The methods\<close>

text \<open>\<^verbatim>\<open>onReady\<close>\<close>

definition onReady :: "collaborators \<Rightarrow> unit prog" where
  "onReady env =
     seq (call (SubscribeStates ''url'') (Inr ())) (\<lambda>_.
     seq (call Launch (puppeteer_launch env)) (\<lambda>b.
     seq (\<lambda>w. (Inr (), w\<lparr>browser := Some b\<rparr>)) (\<lambda>_.
     log_info ReadyToTakeScreenshots)))"

text \<open>\<^verbatim>\<open>onUnload\<close>: the body of the \<^verbatim>\<open>try\<close>, then the method.\<close>

definition onUnload_try :: "collaborators \<Rightarrow> (nat \<Rightarrow> error + unit) \<Rightarrow> unit prog" where
  "onUnload_try env callback =
     seq (\<lambda>w. case browser w of
                None \<Rightarrow> (Inr (), w)
              | Some b \<Rightarrow>
                  seq (log_info ClosingBrowser) (\<lambda>_.
                  seq (call (BrowserClose b) (browser_close env b)) (\<lambda>_.
                  (\<lambda>w'. (Inr (), w'\<lparr>browser := None\<rparr>)))) w) (\<lambda>_.
     invoke callback)"

definition onUnload :: "collaborators \<Rightarrow> (nat \<Rightarrow> error + unit) \<Rightarrow> unit prog" where
  "onUnload env callback = try_catch (onUnload_try env callback) (\<lambda>_. invoke callback)"

text \<open>\<^verbatim>\<open>gatherScreenshotClipOptions\<close>: the loop over the entries, in their order.\<close>

definition clipAttributes :: "(string \<times> ClipAttribute) list" where
  "clipAttributes =
     [(''clipLeft'', AttrX), (''clipTop'', AttrY),
      (''clipHeight'', AttrHeight), (''clipWidth'', AttrWidth)]"

fun clip_loop ::
  "collaborators \<Rightarrow> (string \<times> ClipAttribute) list \<Rightarrow> ScreenshotClip \<Rightarrow> ScreenshotClip option prog"
where
  "clip_loop env [] options = return (Some options)"
| "clip_loop env ((id', attributeName) # rest) options =
     seq (getStateAsync env id') (\<lambda>clipAttributeState.
       case clipAttributeState of
         None \<Rightarrow> seq (log_debug (IgnoringClipNotConfigured id')) (\<lambda>_. return None)
       | Some s \<Rightarrow>
           (case as_number (val s) of
              None \<Rightarrow> seq (log_debug (IgnoringClipNotConfigured id')) (\<lambda>_. return None)
            | Some n \<Rightarrow> clip_loop env rest (assign attributeName n options)))"

definition gatherScreenshotClipOptions :: "collaborators \<Rightarrow> ScreenshotClip option prog" where
  "gatherScreenshotClipOptions env =
     clip_loop env clipAttributes
       \<lparr>clip_x = None, clip_y = None, clip_height = None, clip_width = None\<rparr>"

text \<open>\<^verbatim>\<open>gatherScreenshotOptions\<close>\<close>

definition gatherScreenshotOptions :: "collaborators \<Rightarrow> ScreenshotOptions prog" where
  "gatherScreenshotOptions env =
     seq (getStateAsync env ''filename'') (\<lambda>filenameState.
     let options1 =
           (case filenameState of
              None \<Rightarrow> \<lparr>path = None, fullPage = None, clip = None\<rparr>
            | Some s \<Rightarrow>
                if truthy (val s) then \<lparr>path = Some (val s), fullPage = None, clip = None\<rparr>
                else \<lparr>path = None, fullPage = None, clip = None\<rparr>)
     in
     seq (getStateAsync env ''fullPage'') (\<lambda>fullPageState.
     let options2 =
           (case fullPageState of
              None \<Rightarrow> options1
            | Some s \<Rightarrow> options1\<lparr>fullPage := Some (truthy (val s))\<rparr>)
     in
     if fullPage options2 \<noteq> Some True then
       seq (gatherScreenshotClipOptions env) (\<lambda>clipOptions.
         case clipOptions of
           None \<Rightarrow> return options2
         | Some c \<Rightarrow> return (options2\<lparr>clip := Some c\<rparr>))
     else
       seq (log_debug IgnoringClipFullPage) (\<lambda>_. return options2)))"

text \<open>\<^verbatim>\<open>waitForConditions\<close>\<close>

definition waitForConditions :: "collaborators \<Rightarrow> Page \<Rightarrow> unit prog" where
  "waitForConditions env page =
     seq (getStateAsync env ''waitForSelector'') (\<lambda>selectorState.
     let selector = map_option val selectorState in
     case (if truthy_opt selector then Option.bind selector as_string else None) of
       Some s \<Rightarrow>
         seq (log_debug (WaitingForSelector s)) (\<lambda>_.
         call (WaitForSelector page s) (page_waitForSelector env page s))
     | None \<Rightarrow>
         seq (getStateAsync env ''renderTime'') (\<lambda>renderTimeState.
         let renderTimeMs = map_option val renderTimeState in
         case (if truthy_opt renderTimeMs then Option.bind renderTimeMs as_number else None) of
           Some n \<Rightarrow>
             seq (log_debug (WaitingForTimeout n)) (\<lambda>_.
             call (WaitForTimeout page n) (page_waitForTimeout env page n))
         | None \<Rightarrow> return ()))"

text \<open>\<^verbatim>\<open>onStateChange\<close>: the body of the \<^verbatim>\<open>try\<close>, then the method.\<close>

definition onStateChange_try ::
  "collaborators \<Rightarrow> string \<Rightarrow> StateValue \<Rightarrow> ScreenshotOptions \<Rightarrow> unit prog"
where
  "onStateChange_try env id' v options =
     seq (newPage env) (\<lambda>page.
     seq (call (Goto page v) (page_goto env page v)) (\<lambda>_.
     seq (waitForConditions env page) (\<lambda>_.
     seq (call (Screenshot page options) (page_screenshot env page options)) (\<lambda>_.
     seq (log_info ScreenshotSaved) (\<lambda>_.
     seq (setStateAsync env id' v True) (\<lambda>_.
     call (PageClose page) (page_close env page)))))))"

definition onStateChange :: "collaborators \<Rightarrow> string \<Rightarrow> State option \<Rightarrow> unit prog" where
  "onStateChange env id' state w =
     (case browser w of
        None \<Rightarrow> (Inr (), w)
      | Some _ \<Rightarrow>
          (case state of
             None \<Rightarrow> (Inr (), w)
           | Some st \<Rightarrow>
               if truthy (val st) \<and> \<not> ack st then
                 seq (gatherScreenshotOptions env) (\<lambda>options.
                   if \<not> truthy_opt (path options) then
                     log_error PleaseSpecifyFilename
                   else
                     seq (log_debug (ScreenshotOptionsAre options)) (\<lambda>_.
                     seq (log_info (TakingScreenshotOf (val st))) (\<lambda>_.
                     try_catch (onStateChange_try env id' (val st) options)
                       (\<lambda>e. log_error (CouldNotTakeScreenshot (val st) (message e)))))) w
               else (Inr (), w)))"

subsection \<open>Observations on traces\<close>

text \<open>The calls made on the browser to open a page, and on a page.\<close>

fun is_page_event :: "event \<Rightarrow> bool" where
  "is_page_event (NewPage _) = True"
| "is_page_event (Goto _ _) = True"
| "is_page_event (WaitForSelector _ _) = True"
| "is_page_event (WaitForTimeout _ _) = True"
| "is_page_event (Screenshot _ _) = True"
| "is_page_event (PageClose _) = True"
| "is_page_event _ = False"

fun is_store_write :: "event \<Rightarrow> bool" where
  "is_store_write (SetState _ _ _) = True"
| "is_store_write _ = False"

fun is_page_close :: "event \<Rightarrow> bool" where
  "is_page_close (PageClose _) = True"
| "is_page_close _ = False"

text \<open>Reads of the store and debug lines: all that resolving the configuration does.\<close>

fun is_config_event :: "event \<Rightarrow> bool" where
  "is_config_event (GetState _) = True"
| "is_config_event (LogDebug _) = True"
| "is_config_event _ = False"

text \<open>What \<^verbatim>\<open>waitForConditions\<close> may do besides: one of the two waits.\<close>

fun is_wait_event :: "event \<Rightarrow> bool" where
  "is_wait_event (WaitForSelector _ _) = True"
| "is_wait_event (WaitForTimeout _ _) = True"
| "is_wait_event e = is_config_event e"

text \<open>
  \<open>extends P w w'\<close>: from \<open>w\<close> to \<open>w'\<close> the field is unchanged and the trace has grown by
  events that satisfy \<open>P\<close>. \<open>confined m P Q\<close>: from any world, \<open>m\<close> does that and its
  outcome satisfies \<open>Q\<close>.
\<close>

definition extends :: "(event \<Rightarrow> bool) \<Rightarrow> world \<Rightarrow> world \<Rightarrow> bool" where
  "extends P w w' =
     (browser w' = browser w \<and> take (length (trace w)) (trace w') = trace w \<and>
      list_all P (drop (length (trace w)) (trace w')))"

definition confined :: "'a prog \<Rightarrow> (event \<Rightarrow> bool) \<Rightarrow> (error + 'a \<Rightarrow> bool) \<Rightarrow> bool" where
  "confined m P Q = (\<forall>w. extends P w (snd (m w)) \<and> Q (fst (m w)))"

text \<open>The events that \<open>m\<close> adds to the trace when it is run from \<open>w\<close>.\<close>

definition issued :: "'a prog \<Rightarrow> world \<Rightarrow> event list" where
  "issued m w = drop (length (trace w)) (trace (snd (m w)))"

text \<open>Every read of the store succeeds.\<close>

definition reads_succeed :: "collaborators \<Rightarrow> bool" where
  "reads_succeed env = (\<forall>k. \<exists>st. store_read env k = Inr st)"

text \<open>The \<^verbatim>\<open>path\<close> that a given \<^verbatim>\<open>filename\<close> state leads to.\<close>

fun path_of :: "State option \<Rightarrow> StateValue option" where
  "path_of None = None"
| "path_of (Some s) = (if truthy (val s) then Some (val s) else None)"

subsection \<open>Configuration snapshots\<close>

text \<open>A store in which every read succeeds and returns what the snapshot holds.\<close>

definition snapshot :: "(string \<Rightarrow> State option) \<Rightarrow> string \<Rightarrow> error + State option" where
  "snapshot cfg k = Inr (cfg k)"

text \<open>A key is present with a value of numeric type.\<close>

fun numeric :: "State option \<Rightarrow> bool" where
  "numeric None = False"
| "numeric (Some s) = (as_number (val s) \<noteq> None)"

subsection \<open>Example worlds, configurations and collaborators\<close>

definition active :: world where
  "active = \<lparr>browser = Some 1, trace = []\<rparr>"

definition torn_down :: world where
  "torn_down = \<lparr>browser = None, trace = []\<rparr>"

definition trigger :: State where
  "trigger = \<lparr>val = VString ''https://example.com'', ack = False\<rparr>"

definition filename_only :: "string \<Rightarrow> State option" where
  "filename_only = map_of [(''filename'', \<lparr>val = VString ''/tmp/out.png'', ack = True\<rparr>)]"

definition nothing_configured :: "string \<Rightarrow> State option" where
  "nothing_configured = map_of []"

definition fullPage_and_clip :: "string \<Rightarrow> State option" where
  "fullPage_and_clip = map_of
     [(''filename'', \<lparr>val = VString ''/tmp/out.png'', ack = True\<rparr>),
      (''fullPage'', \<lparr>val = VBool True, ack = True\<rparr>),
      (''clipLeft'', \<lparr>val = VNumber (Num 0), ack = True\<rparr>),
      (''clipTop'', \<lparr>val = VNumber (Num 0), ack = True\<rparr>),
      (''clipHeight'', \<lparr>val = VNumber (Num 600), ack = True\<rparr>),
      (''clipWidth'', \<lparr>val = VNumber (Num 800), ack = True\<rparr>)]"

definition clip_without_width :: "string \<Rightarrow> State option" where
  "clip_without_width = map_of
     [(''filename'', \<lparr>val = VString ''/tmp/out.png'', ack = True\<rparr>),
      (''clipLeft'', \<lparr>val = VNumber (Num 10), ack = True\<rparr>),
      (''clipTop'', \<lparr>val = VNumber (Num 20), ack = True\<rparr>),
      (''clipHeight'', \<lparr>val = VNumber (Num 600), ack = True\<rparr>)]"

definition selector_and_renderTime :: "string \<Rightarrow> State option" where
  "selector_and_renderTime = map_of
     [(''filename'', \<lparr>val = VString ''/tmp/out.png'', ack = True\<rparr>),
      (''waitForSelector'', \<lparr>val = VString ''#main'', ack = True\<rparr>),
      (''renderTime'', \<lparr>val = VNumber (Num 500), ack = True\<rparr>)]"

definition renderTime_500 :: "string \<Rightarrow> State option" where
  "renderTime_500 = map_of
     [(''filename'', \<lparr>val = VString ''/tmp/out.png'', ack = True\<rparr>),
      (''waitForSelector'', \<lparr>val = VString [], ack = True\<rparr>),
      (''renderTime'', \<lparr>val = VNumber (Num 500), ack = True\<rparr>)]"

definition renderTime_zero :: "string \<Rightarrow> State option" where
  "renderTime_zero = map_of
     [(''filename'', \<lparr>val = VString ''/tmp/out.png'', ack = True\<rparr>),
      (''renderTime'', \<lparr>val = VNumber (Num 0), ack = True\<rparr>)]"

text \<open>Collaborators that all succeed, over a given snapshot; the page opened is page 7.\<close>

definition cooperative :: "(string \<Rightarrow> State option) \<Rightarrow> collaborators" where
  "cooperative cfg =
     \<lparr>store_read = snapshot cfg,
      store_write = (\<lambda>_ _ _. Inr ()),
      puppeteer_launch = Inr 1,
      browser_newPage = (\<lambda>_. Inr 7),
      browser_close = (\<lambda>_. Inr ()),
      page_goto = (\<lambda>_ _. Inr ()),
      page_waitForSelector = (\<lambda>_ _. Inr ()),
      page_waitForTimeout = (\<lambda>_ _. Inr ()),
      page_screenshot = (\<lambda>_ _. Inr ()),
      page_close = (\<lambda>_. Inr ())\<rparr>"

text \<open>The same, except that navigation fails.\<close>

definition unreachable :: collaborators where
  "unreachable =
     (cooperative filename_only)
       \<lparr>page_goto := (\<lambda>_ _. Inl (Error ''net::ERR_NAME_NOT_RESOLVED''))\<rparr>"

text \<open>The same, except that closing the browser fails.\<close>

definition stuck_browser :: collaborators where
  "stuck_browser =
     (cooperative filename_only)\<lparr>browser_close := (\<lambda>_. Inl (Error ''Target closed''))\<rparr>"

definition quiet_callback :: "nat \<Rightarrow> error + unit" where
  "quiet_callback n = Inr ()"

definition throwing_callback :: "nat \<Rightarrow> error + unit" where
  "throwing_callback n = Inl (Error ''callback failed'')"

section \<open>Reasoning about runs\<close>

lemmas prims = seq_def call_def return_def log_debug_def log_info_def log_error_def
  getStateAsync_def setStateAsync_def try_catch_def

subsection \<open>Sequencing\<close>

lemma seq_fst_Inr: "fst (m w) = Inr a \<Longrightarrow> seq m f w = f a (snd (m w))"
  by (cases "m w") (simp add: seq_def)

lemma seq_call_Inr: "seq (call ev (Inr a)) f w = f a (w\<lparr>trace := trace w @ [ev]\<rparr>)"
  by (simp add: seq_def call_def)

lemma seq_call_Inl: "seq (call ev (Inl e)) f w = (Inl e, w\<lparr>trace := trace w @ [ev]\<rparr>)"
  by (simp add: seq_def call_def)

lemma seq_newPage:
  "browser w = Some b \<Longrightarrow> browser_newPage env b = Inr page \<Longrightarrow>
     seq (newPage env) f w = f page (w\<lparr>trace := trace w @ [NewPage b]\<rparr>)"
  by (simp add: seq_def newPage_def call_def)

subsection \<open>Growth of the trace\<close>

lemma extends_iff:
  "extends P w w' \<longleftrightarrow>
     browser w' = browser w \<and> (\<exists>es. trace w' = trace w @ es \<and> list_all P es)"
  unfolding extends_def by (metis append_eq_conv_conj)

lemma extends_refl: "extends P w w"
  by (simp add: extends_def)

lemma extends_trans: "extends P w w1 \<Longrightarrow> extends P w1 w2 \<Longrightarrow> extends P w w2"
  by (auto simp: extends_iff)

lemma extends_mono: "extends P w w' \<Longrightarrow> (\<And>e. P e \<Longrightarrow> Q e) \<Longrightarrow> extends Q w w'"
  by (auto simp: extends_iff list_all_iff)

lemma config_events_are_not_page_events:
  "list_all is_config_event es \<Longrightarrow> \<not> list_ex is_page_event es"
proof (induction es)
  case Nil
  show ?case by simp
next
  case (Cons e es)
  then show ?case by (cases e) simp_all
qed

lemma config_events_are_not_writes:
  "list_all is_config_event es \<Longrightarrow> filter is_store_write es = []"
proof (induction es)
  case Nil
  show ?case by simp
next
  case (Cons e es)
  then show ?case by (cases e) simp_all
qed

lemma config_events_are_not_closes:
  "list_all is_config_event es \<Longrightarrow> filter is_page_close es = []"
proof (induction es)
  case Nil
  show ?case by simp
next
  case (Cons e es)
  then show ?case by (cases e) simp_all
qed

lemma wait_events_are_not_writes:
  "list_all is_wait_event es \<Longrightarrow> filter is_store_write es = []"
proof (induction es)
  case Nil
  show ?case by simp
next
  case (Cons e es)
  then show ?case by (cases e) simp_all
qed

subsection \<open>Rules for \<open>confined\<close>\<close>

lemma confined_return: "Q (Inr a) \<Longrightarrow> confined (return a) P Q"
  by (simp add: confined_def return_def extends_refl)

lemma confined_call: "P ev \<Longrightarrow> Q r \<Longrightarrow> confined (call ev r) P Q"
  by (simp add: confined_def call_def extends_iff)

lemma confined_seq:
  assumes "confined m P R"
    and "\<And>a. R (Inr a) \<Longrightarrow> confined (f a) P Q"
    and "\<And>e. R (Inl e) \<Longrightarrow> Q (Inl e)"
  shows "confined (seq m f) P Q"
  unfolding confined_def
proof (intro allI)
  fix w
  obtain r w1 where mw: "m w = (r, w1)" by (cases "m w")
  from assms(1) mw have e1: "extends P w w1" and r: "R r"
    by (auto simp: confined_def dest: spec [of _ w])
  show "extends P w (snd (seq m f w)) \<and> Q (fst (seq m f w))"
  proof (cases r)
    case (Inl e)
    with mw e1 r assms(3) show ?thesis by (simp add: seq_def)
  next
    case (Inr a)
    with r assms(2) have "confined (f a) P Q" by simp
    then have "extends P w1 (snd (f a w1))" and "Q (fst (f a w1))"
      by (simp_all add: confined_def)
    with mw Inr e1 show ?thesis by (auto simp: seq_def intro: extends_trans)
  qed
qed

lemma confined_try_catch:
  assumes "confined m P R"
    and "\<And>e. R (Inl e) \<Longrightarrow> confined (h e) P Q"
    and "\<And>a. R (Inr a) \<Longrightarrow> Q (Inr a)"
  shows "confined (try_catch m h) P Q"
  unfolding confined_def
proof (intro allI)
  fix w
  obtain r w1 where mw: "m w = (r, w1)" by (cases "m w")
  from assms(1) mw have e1: "extends P w w1" and r: "R r"
    by (auto simp: confined_def dest: spec [of _ w])
  show "extends P w (snd (try_catch m h w)) \<and> Q (fst (try_catch m h w))"
  proof (cases r)
    case (Inr a)
    with mw e1 r assms(3) show ?thesis by (simp add: try_catch_def)
  next
    case (Inl e)
    with r assms(2) have "confined (h e) P Q" by simp
    then have "extends P w1 (snd (h e w1))" and "Q (fst (h e w1))"
      by (simp_all add: confined_def)
    with mw Inl e1 show ?thesis by (auto simp: try_catch_def intro: extends_trans)
  qed
qed

lemma confined_weaken:
  "confined m P Q \<Longrightarrow> (\<And>e. P e \<Longrightarrow> P' e) \<Longrightarrow> (\<And>r. Q r \<Longrightarrow> Q' r) \<Longrightarrow> confined m P' Q'"
  unfolding confined_def by (blast intro: extends_mono)

lemma confined_if:
  "(c \<Longrightarrow> confined a P Q) \<Longrightarrow> (\<not> c \<Longrightarrow> confined b P Q) \<Longrightarrow>
     confined (if c then a else b) P Q"
  by simp

lemma confined_case_option:
  "(x = None \<Longrightarrow> confined a P Q) \<Longrightarrow> (\<And>y. x = Some y \<Longrightarrow> confined (f y) P Q) \<Longrightarrow>
     confined (case x of None \<Rightarrow> a | Some y \<Rightarrow> f y) P Q"
  by (cases x) simp_all

lemma confined_issued:
  assumes "confined m P Q"
  shows "trace (snd (m w)) = trace w @ issued m w" and "list_all P (issued m w)"
    and "browser (snd (m w)) = browser w" and "Q (fst (m w))"
proof -
  from assms have e: "extends P w (snd (m w))" and q: "Q (fst (m w))"
    by (simp_all add: confined_def)
  from e have "take (length (trace w)) (trace (snd (m w))) = trace w"
    by (simp add: extends_def)
  then show "trace (snd (m w)) = trace w @ issued m w"
    unfolding issued_def by (metis append_take_drop_id)
  from e show "list_all P (issued m w)" by (simp add: extends_def issued_def)
  from e show "browser (snd (m w)) = browser w" by (simp add: extends_def)
  from q show "Q (fst (m w))" .
qed

subsection \<open>What each method may do\<close>

lemma snapshot_reads_succeed: "store_read env = snapshot cfg \<Longrightarrow> reads_succeed env"
  by (simp add: reads_succeed_def snapshot_def)

lemma confined_getStateAsync:
  "P (GetState k) \<Longrightarrow> confined (getStateAsync env k) P (\<lambda>r. store_read env k = r)"
  by (simp add: getStateAsync_def confined_call)

lemma confined_log_debug: "P (LogDebug l) \<Longrightarrow> confined (log_debug l) P (\<lambda>r. r = Inr ())"
  by (simp add: log_debug_def confined_call)

text \<open>The clip loop only reads and logs, and does not fail unless a read does.\<close>

lemma confined_clip_loop:
  "confined (clip_loop env attrs options) is_config_event
     (\<lambda>r. (\<forall>k. \<exists>st. store_read env k = Inr st) \<longrightarrow> (\<exists>c. r = Inr c))"
proof (induction attrs arbitrary: options)
  case Nil
  show ?case by (simp add: confined_return)
next
  case (Cons a attrs)
  obtain k attr where a: "a = (k, attr)" by (cases a)
  show ?case
    unfolding a clip_loop.simps
    apply (rule confined_seq [OF confined_getStateAsync])
      apply simp
     apply (simp split: option.split)
     apply (intro conjI allI impI)
       apply (rule confined_seq [OF confined_log_debug])
         apply simp
        apply (simp add: confined_return)
       apply simp
      apply (rule confined_seq [OF confined_log_debug])
        apply simp
       apply (simp add: confined_return)
      apply simp
     apply (rule Cons.IH)
    apply (metis sum.distinct(1))
    done
qed

lemma confined_gatherScreenshotClipOptions:
  "confined (gatherScreenshotClipOptions env) is_config_event
     (\<lambda>r. reads_succeed env \<longrightarrow> (\<exists>c. r = Inr c))"
  unfolding gatherScreenshotClipOptions_def reads_succeed_def by (rule confined_clip_loop)

text \<open>The loop stops at the first key that is not numeric and returns nothing.\<close>

lemma clip_loop_gives_up:
  assumes "store_read env = snapshot cfg"
  shows "list_ex (\<lambda>(k, a). \<not> numeric (cfg k)) attrs \<Longrightarrow>
           fst (clip_loop env attrs options w) = Inr None"
proof (induction attrs arbitrary: options w)
  case Nil
  then show ?case by simp
next
  case (Cons a attrs)
  obtain k attr where a: "a = (k, attr)" by (cases a)
  show ?case
  proof (cases "numeric (cfg k)")
    case True
    then obtain s n where s: "cfg k = Some s" "as_number (val s) = Some n"
      by (cases "cfg k") auto
    from Cons.prems True a have "list_ex (\<lambda>(k, a). \<not> numeric (cfg k)) attrs" by simp
    from Cons.IH [OF this] show ?thesis
      by (simp add: a s assms snapshot_def prims)
  next
    case False
    then show ?thesis
      by (cases "cfg k") (auto simp: a assms snapshot_def prims split: option.splits)
  qed
qed

lemma confined_gatherScreenshotOptions:
  "confined (gatherScreenshotOptions env) is_config_event
     (\<lambda>r. reads_succeed env \<longrightarrow>
        (\<exists>options. r = Inr options \<and>
           (\<forall>f. store_read env ''filename'' = Inr f \<longrightarrow> path options = path_of f)))"
  unfolding gatherScreenshotOptions_def Let_def
  apply (intro confined_seq [OF confined_getStateAsync] confined_if
      confined_seq [OF confined_gatherScreenshotClipOptions]
      confined_seq [OF confined_log_debug] confined_case_option confined_return)
    apply (auto simp: reads_succeed_def split: option.splits)
   apply (metis sum.distinct(1))+
  done

lemma confined_waitForConditions:
  "confined (waitForConditions env page) is_wait_event
     (\<lambda>r. reads_succeed env \<and> (\<forall>s. page_waitForSelector env page s = Inr ()) \<and>
          (\<forall>n. page_waitForTimeout env page n = Inr ()) \<longrightarrow> r = Inr ())"
  unfolding waitForConditions_def Let_def
  apply (intro confined_seq [OF confined_getStateAsync] confined_if
      confined_seq [OF confined_log_debug] confined_case_option
      confined_return confined_call)
  apply (auto simp: reads_succeed_def split: option.splits)
   apply (metis sum.distinct(1))+
  done

text \<open>Handling a state change only adds to the trace.\<close>

lemma confined_onStateChange_try:
  "confined (onStateChange_try env id' v options) (\<lambda>_. True) (\<lambda>_. True)"
  unfolding onStateChange_try_def
proof (rule confined_seq [where R = "\<lambda>_. True"])
  show "confined (newPage env) (\<lambda>_. True) (\<lambda>_. True)"
    by (auto simp: confined_def newPage_def call_def extends_iff split: option.splits)
  fix page
  show "confined
     (seq (call (Goto page v) (page_goto env page v)) (\<lambda>_.
      seq (waitForConditions env page) (\<lambda>_.
      seq (call (Screenshot page options) (page_screenshot env page options)) (\<lambda>_.
      seq (log_info ScreenshotSaved) (\<lambda>_.
      seq (setStateAsync env id' v True) (\<lambda>_.
      call (PageClose page) (page_close env page)))))))
     (\<lambda>_. True) (\<lambda>_. True)"
    unfolding log_info_def setStateAsync_def
    by (intro confined_seq [where R = "\<lambda>_. True"] confined_call
        confined_weaken [OF confined_waitForConditions]) simp_all
qed simp

lemma confined_onStateChange:
  "confined (onStateChange env id' state) (\<lambda>_. True) (\<lambda>_. True)"
proof -
  have "confined
     (seq (gatherScreenshotOptions env) (\<lambda>options.
        if \<not> truthy_opt (path options) then log_error PleaseSpecifyFilename
        else
          seq (log_debug (ScreenshotOptionsAre options)) (\<lambda>_.
          seq (log_info (TakingScreenshotOf v)) (\<lambda>_.
          try_catch (onStateChange_try env id' v options)
            (\<lambda>e. log_error (CouldNotTakeScreenshot v (message e)))))))
     (\<lambda>_. True) (\<lambda>_. True)" for v
    unfolding log_info_def log_error_def log_debug_def
    by (intro confined_seq [where R = "\<lambda>_. True"] confined_call confined_if
        confined_try_catch [where R = "\<lambda>_. True"] confined_onStateChange_try
        confined_weaken [OF confined_gatherScreenshotOptions]) simp_all
  then have "extends (\<lambda>_. True) w
     (snd (seq (gatherScreenshotOptions env) (\<lambda>options.
        if \<not> truthy_opt (path options) then log_error PleaseSpecifyFilename
        else
          seq (log_debug (ScreenshotOptionsAre options)) (\<lambda>_.
          seq (log_info (TakingScreenshotOf v)) (\<lambda>_.
          try_catch (onStateChange_try env id' v options)
            (\<lambda>e. log_error (CouldNotTakeScreenshot v (message e)))))) w))" for v w
    by (simp add: confined_def)
  then show ?thesis
    by (auto simp: confined_def onStateChange_def extends_refl split: option.splits)
qed

section \<open>The claims\<close>

subsection \<open>Notifications that are not triggers\<close>

text \<open>
  Claim C8. When the browser session has been torn down, or the notification carries no
  state, or its value is falsy, or it is already acknowledged, \<^verbatim>\<open>onStateChange\<close> returns
  normally and leaves the world as it was: nothing is read from the store, no page is
  opened, nothing is logged.
\<close>

theorem onStateChange_ignores_non_triggers:
  assumes "browser w = None \<or>
           (case state of None \<Rightarrow> True | Some st \<Rightarrow> \<not> truthy (val st) \<or> ack st)"
  shows "onStateChange env id' state w = (Inr (), w)"
  using assms by (auto simp: onStateChange_def split: option.splits)

text \<open>Three instances: after teardown, an empty value, an acknowledged change.\<close>

theorem onStateChange_ignores_non_triggers_witness:
  "browser torn_down = None \<and>
   onStateChange (cooperative filename_only) ''url'' (Some trigger) torn_down
     = (Inr (), torn_down) \<and>
   onStateChange (cooperative filename_only) ''url''
       (Some \<lparr>val = VString [], ack = False\<rparr>) active
     = (Inr (), active) \<and>
   onStateChange (cooperative filename_only) ''url'' (Some (trigger\<lparr>ack := True\<rparr>)) active
     = (Inr (), active)"
proof -
  have h: "browser torn_down = None" by (simp add: torn_down_def)
  show ?thesis
    using h
      onStateChange_ignores_non_triggers
        [of torn_down "Some trigger" "cooperative filename_only" "''url''"]
      onStateChange_ignores_non_triggers
        [of active "Some \<lparr>val = VString [], ack = False\<rparr>" "cooperative filename_only" "''url''"]
      onStateChange_ignores_non_triggers
        [of active "Some (trigger\<lparr>ack := True\<rparr>)" "cooperative filename_only" "''url''"]
    by simp
qed

subsection \<open>Resolving the configuration\<close>

text \<open>
  Claim C2. When the \<^verbatim>\<open>fullPage\<close> state is truthy, \<^verbatim>\<open>gatherScreenshotOptions\<close> returns
  options without a clip, and the only reads it makes are those of \<^verbatim>\<open>filename\<close> and
  \<^verbatim>\<open>fullPage\<close>: the four clip keys are not read, so what they hold (or whether reading
  them would succeed) plays no part.
\<close>

theorem gatherScreenshotOptions_fullPage_skips_clip:
  assumes "store_read env ''filename'' = Inr f"
    and "store_read env ''fullPage'' = Inr (Some s)" and "truthy (val s)"
  shows "\<exists>options. clip options = None \<and> fullPage options = Some True \<and>
           gatherScreenshotOptions env w =
             (Inr options,
              w\<lparr>trace := trace w @ [GetState ''filename'', GetState ''fullPage'',
                                    LogDebug IgnoringClipFullPage]\<rparr>)"
  using assms by (simp add: gatherScreenshotOptions_def prims Let_def split: option.split)

text \<open>An instance in which all four clip keys hold numbers.\<close>

theorem gatherScreenshotOptions_fullPage_skips_clip_witness:
  "numeric (fullPage_and_clip ''clipLeft'') \<and> numeric (fullPage_and_clip ''clipTop'') \<and>
   numeric (fullPage_and_clip ''clipHeight'') \<and> numeric (fullPage_and_clip ''clipWidth'') \<and>
   (\<exists>options. clip options = None \<and> fullPage options = Some True \<and>
      gatherScreenshotOptions (cooperative fullPage_and_clip) active =
        (Inr options,
         active\<lparr>trace := trace active @ [GetState ''filename'', GetState ''fullPage'',
                                         LogDebug IgnoringClipFullPage]\<rparr>))"
proof -
  have f: "store_read (cooperative fullPage_and_clip) ''filename''
             = Inr (Some \<lparr>val = VString ''/tmp/out.png'', ack = True\<rparr>)"
    by (simp add: cooperative_def snapshot_def fullPage_and_clip_def)
  have p: "store_read (cooperative fullPage_and_clip) ''fullPage''
             = Inr (Some \<lparr>val = VBool True, ack = True\<rparr>)"
    by (simp add: cooperative_def snapshot_def fullPage_and_clip_def)
  have t: "truthy (val \<lparr>val = VBool True, ack = True\<rparr>)" by simp
  have n: "numeric (fullPage_and_clip ''clipLeft'') \<and> numeric (fullPage_and_clip ''clipTop'') \<and>
           numeric (fullPage_and_clip ''clipHeight'') \<and> numeric (fullPage_and_clip ''clipWidth'')"
    by (simp add: fullPage_and_clip_def)
  from n gatherScreenshotOptions_fullPage_skips_clip [OF f p t, of active]
  show ?thesis by simp
qed

subsection \<open>Waiting before the capture\<close>

text \<open>
  Claim C4. When \<^verbatim>\<open>waitForSelector\<close> holds a non-empty string, \<^verbatim>\<open>waitForConditions\<close>
  waits for that selector and does nothing else: it reads \<^verbatim>\<open>waitForSelector\<close>, logs, and
  calls \<^verbatim>\<open>page.waitForSelector\<close> with the value. The \<^verbatim>\<open>renderTime\<close> key is not read,
  whatever it holds.
\<close>

theorem waitForConditions_selector_first:
  assumes "store_read env ''waitForSelector'' = Inr (Some s)"
    and "val s = VString sel" and "sel \<noteq> []"
  shows "waitForConditions env page w =
           (page_waitForSelector env page sel,
            w\<lparr>trace := trace w @ [GetState ''waitForSelector'',
                                  LogDebug (WaitingForSelector sel),
                                  WaitForSelector page sel]\<rparr>)"
  using assms by (simp add: waitForConditions_def prims)

text \<open>An instance in which \<^verbatim>\<open>renderTime\<close> is configured as well.\<close>

theorem waitForConditions_selector_first_witness:
  "numeric (selector_and_renderTime ''renderTime'') \<and>
   waitForConditions (cooperative selector_and_renderTime) 7 active =
     (Inr (),
      \<lparr>browser = Some 1,
       trace = [GetState ''waitForSelector'', LogDebug (WaitingForSelector ''#main''),
                WaitForSelector 7 ''#main'']\<rparr>)"
proof -
  have r: "store_read (cooperative selector_and_renderTime) ''waitForSelector''
             = Inr (Some \<lparr>val = VString ''#main'', ack = True\<rparr>)"
    by (simp add: cooperative_def snapshot_def selector_and_renderTime_def)
  have v: "val \<lparr>val = VString ''#main'', ack = True\<rparr> = VString ''#main''" by simp
  have ne: "''#main'' \<noteq> []" by simp
  have n: "numeric (selector_and_renderTime ''renderTime'')"
    by (simp add: selector_and_renderTime_def)
  from n waitForConditions_selector_first [OF r v ne, of 7 active]
  show ?thesis by (simp add: active_def cooperative_def)
qed

text \<open>
  Claim C5, as the code has it. When \<^verbatim>\<open>waitForSelector\<close> is absent or empty and
  \<^verbatim>\<open>renderTime\<close> holds a number, the guard \<^verbatim>\<open>renderTimeMs && typeof renderTimeMs === 'number'\<close>
  decides: a truthy number (not zero, not NaN) gives one call of \<^verbatim>\<open>page.waitForTimeout\<close>
  with exactly that number; for zero and NaN both keys are read and no wait is made.
\<close>

theorem waitForConditions_renderTime:
  assumes "store_read env ''waitForSelector'' = Inr selectorState"
    and "map_option val selectorState \<in> {None, Some (VString [])}"
    and "store_read env ''renderTime'' = Inr (Some r)" and "val r = VNumber n"
  shows "waitForConditions env page w =
           (if truthy (VNumber n) then
              (page_waitForTimeout env page n,
               w\<lparr>trace := trace w @ [GetState ''waitForSelector'', GetState ''renderTime'',
                                     LogDebug (WaitingForTimeout n),
                                     WaitForTimeout page n]\<rparr>)
            else
              (Inr (),
               w\<lparr>trace := trace w @ [GetState ''waitForSelector'', GetState ''renderTime'']\<rparr>))"
  using assms by (auto simp: waitForConditions_def prims)

text \<open>An instance: an empty selector and a render time of 500 ms.\<close>

theorem waitForConditions_renderTime_witness:
  "map_option val (renderTime_500 ''waitForSelector'') = Some (VString []) \<and>
   waitForConditions (cooperative renderTime_500) 7 active =
     (Inr (),
      \<lparr>browser = Some 1,
       trace = [GetState ''waitForSelector'', GetState ''renderTime'',
                LogDebug (WaitingForTimeout (Num 500)), WaitForTimeout 7 (Num 500)]\<rparr>)"
proof -
  have sel: "store_read (cooperative renderTime_500) ''waitForSelector''
               = Inr (Some \<lparr>val = VString [], ack = True\<rparr>)"
    by (simp add: cooperative_def snapshot_def renderTime_500_def)
  have empty: "map_option val (Some \<lparr>val = VString [], ack = True\<rparr>)
                 \<in> {None, Some (VString [])}"
    by simp
  have rt: "store_read (cooperative renderTime_500) ''renderTime''
              = Inr (Some \<lparr>val = VNumber (Num 500), ack = True\<rparr>)"
    by (simp add: cooperative_def snapshot_def renderTime_500_def)
  have v: "val \<lparr>val = VNumber (Num 500), ack = True\<rparr> = VNumber (Num 500)" by simp
  have c: "map_option val (renderTime_500 ''waitForSelector'') = Some (VString [])"
    by (simp add: renderTime_500_def)
  from c waitForConditions_renderTime [OF sel empty rt v, of 7 active]
  show ?thesis by (simp add: active_def cooperative_def)
qed

text \<open>
  Claim C5 as stated includes the value 0. With no selector and \<^verbatim>\<open>renderTime\<close> = 0 the
  run reads the two keys and returns: \<^verbatim>\<open>page.waitForTimeout\<close> is not called.
\<close>

theorem waitForConditions_renderTime_zero:
  "renderTime_zero ''waitForSelector'' = None \<and>
   map_option val (renderTime_zero ''renderTime'') = Some (VNumber (Num 0)) \<and>
   waitForConditions (cooperative renderTime_zero) 7 active =
     (Inr (),
      \<lparr>browser = Some 1,
       trace = [GetState ''waitForSelector'', GetState ''renderTime'']\<rparr>) \<and>
   WaitForTimeout 7 (Num 0)
     \<notin> set (trace (snd (waitForConditions (cooperative renderTime_zero) 7 active)))"
  by (simp add: waitForConditions_def prims cooperative_def snapshot_def renderTime_zero_def
      active_def)

subsection \<open>Partial clip configuration\<close>

text \<open>
  Claim C3. When fewer than four of the keys \<^verbatim>\<open>clipLeft\<close>, \<^verbatim>\<open>clipTop\<close>, \<^verbatim>\<open>clipHeight\<close>,
  \<^verbatim>\<open>clipWidth\<close> are present with a number, \<^verbatim>\<open>gatherScreenshotClipOptions\<close> returns
  normally with no clip, having only read the store and written debug lines, and the
  options that \<^verbatim>\<open>gatherScreenshotOptions\<close> returns have no clip.
\<close>

theorem partial_clip_is_discarded:
  assumes "store_read env = snapshot cfg"
    and "length (filter (\<lambda>k. numeric (cfg k)) (map fst clipAttributes)) < 4"
  shows "fst (gatherScreenshotClipOptions env w) = Inr None \<and>
         extends is_config_event w (snd (gatherScreenshotClipOptions env w)) \<and>
         (\<exists>options. fst (gatherScreenshotOptions env w) = Inr options \<and> clip options = None)"
proof -
  from assms(2) have ex: "list_ex (\<lambda>(k, a). \<not> numeric (cfg k)) clipAttributes"
    by (auto simp: clipAttributes_def split: if_splits)
  have none: "fst (gatherScreenshotClipOptions env w') = Inr None" for w'
    unfolding gatherScreenshotClipOptions_def by (rule clip_loop_gives_up [OF assms(1) ex])
  have ext: "extends is_config_event w (snd (gatherScreenshotClipOptions env w))"
    using confined_gatherScreenshotClipOptions [of env] by (simp add: confined_def)
  have "\<exists>options. fst (gatherScreenshotOptions env w) = Inr options \<and> clip options = None"
    by (cases "cfg ''filename''"; cases "cfg ''fullPage''")
       (simp_all add: gatherScreenshotOptions_def Let_def getStateAsync_def log_debug_def
          assms(1) snapshot_def seq_fst_Inr [OF none] call_def return_def seq_def)
  with none ext show ?thesis by simp
qed

text \<open>An instance: three of the four keys hold numbers, \<^verbatim>\<open>clipWidth\<close> is missing.\<close>

theorem partial_clip_is_discarded_witness:
  "length (filter (\<lambda>k. numeric (clip_without_width k)) (map fst clipAttributes)) = 3 \<and>
   fst (gatherScreenshotClipOptions (cooperative clip_without_width) active) = Inr None \<and>
   extends is_config_event active
     (snd (gatherScreenshotClipOptions (cooperative clip_without_width) active)) \<and>
   (\<exists>options. fst (gatherScreenshotOptions (cooperative clip_without_width) active)
                = Inr options \<and> clip options = None)"
proof -
  have s: "store_read (cooperative clip_without_width) = snapshot clip_without_width"
    by (simp add: cooperative_def)
  have three:
    "length (filter (\<lambda>k. numeric (clip_without_width k)) (map fst clipAttributes)) = 3"
    by (simp add: clipAttributes_def clip_without_width_def)
  then have few:
    "length (filter (\<lambda>k. numeric (clip_without_width k)) (map fst clipAttributes)) < 4"
    by simp
  from three partial_clip_is_discarded [OF s few, of active]
  show ?thesis by simp
qed

subsection \<open>Handling a trigger\<close>

text \<open>
  Claim C6. For a trigger (a session exists, the value is truthy and unacknowledged) over
  a snapshot in which \<^verbatim>\<open>filename\<close> is absent or holds the empty string, \<^verbatim>\<open>onStateChange\<close>
  returns normally, its last action is the error line asking for a filename, and
  everything before it is a read of the store or a debug line: no page is opened and no
  navigation is attempted.
\<close>

theorem missing_filename_aborts_before_any_page:
  assumes "browser w = Some b" and "truthy (val st)" and "\<not> ack st"
    and "store_read env = snapshot cfg"
    and "map_option val (cfg ''filename'') \<in> {None, Some (VString [])}"
  shows "fst (onStateChange env id' (Some st) w) = Inr () \<and>
         (\<exists>es. trace (snd (onStateChange env id' (Some st) w)) =
                 trace w @ es @ [LogError PleaseSpecifyFilename] \<and>
               list_all is_config_event es \<and> \<not> list_ex is_page_event es)"
proof -
  let ?g = "gatherScreenshotOptions env"
  note g = confined_issued [OF confined_gatherScreenshotOptions [of env], of w]
  from assms(5) have "path_of (cfg ''filename'') = None"
    by (cases "cfg ''filename''") auto
  with g(4) assms(4) obtain options where
    options: "fst (?g w) = Inr options" "path options = None"
    by (auto simp: snapshot_reads_succeed snapshot_def)
  have "onStateChange env id' (Some st) w =
          (Inr (),
           (snd (?g w))\<lparr>trace := trace w @ issued ?g w @ [LogError PleaseSpecifyFilename]\<rparr>)"
    using assms(1-3) options
    by (simp add: onStateChange_def seq_fst_Inr [where m = ?g and w = w, OF options(1)]
        log_error_def call_def g(1))
  with g(2) show ?thesis
    by (auto simp: config_events_are_not_page_events)
qed

text \<open>An instance: a trigger when nothing at all is configured.\<close>

theorem missing_filename_aborts_before_any_page_witness:
  "nothing_configured ''filename'' = None \<and>
   fst (onStateChange (cooperative nothing_configured) ''url'' (Some trigger) active) = Inr () \<and>
   (\<exists>es. trace (snd (onStateChange (cooperative nothing_configured) ''url''
                       (Some trigger) active)) =
           trace active @ es @ [LogError PleaseSpecifyFilename] \<and>
         list_all is_config_event es \<and> \<not> list_ex is_page_event es)"
proof -
  have b: "browser active = Some 1" by (simp add: active_def)
  have t: "truthy (val trigger)" by (simp add: trigger_def)
  have a: "\<not> ack trigger" by (simp add: trigger_def)
  have s: "store_read (cooperative nothing_configured) = snapshot nothing_configured"
    by (simp add: cooperative_def)
  have n: "nothing_configured ''filename'' = None" by (simp add: nothing_configured_def)
  then have f: "map_option val (nothing_configured ''filename'') \<in> {None, Some (VString [])}"
    by simp
  from n missing_filename_aborts_before_any_page [OF b t a s f, of "''url''"]
  show ?thesis by simp
qed

text \<open>
  Claim C7. For a trigger over a snapshot with a filename, when the page opens and the
  navigation, the waits and the capture succeed, the events that \<^verbatim>\<open>onStateChange\<close> adds
  to the trace contain exactly one write to the store: the triggering key with its
  original value and the acknowledged flag set. This holds whether or not the write or
  the closing of the page then succeeds.
\<close>

theorem successful_capture_acknowledged_once:
  assumes "browser w = Some b" and "truthy (val st)" and "\<not> ack st"
    and "store_read env = snapshot cfg"
    and "cfg ''filename'' = Some f" and "truthy (val f)"
    and "browser_newPage env b = Inr page"
    and "page_goto env page (val st) = Inr ()"
    and "\<And>s. page_waitForSelector env page s = Inr ()"
    and "\<And>n. page_waitForTimeout env page n = Inr ()"
    and "\<And>options. page_screenshot env page options = Inr ()"
  shows "\<exists>es. trace (snd (onStateChange env id' (Some st) w)) = trace w @ es \<and>
              filter is_store_write es = [SetState id' (val st) True]"
proof -
  let ?g = "gatherScreenshotOptions env"
  let ?wait = "waitForConditions env page"
  note g = confined_issued [OF confined_gatherScreenshotOptions [of env], of w]
  from g(4) assms(4-6) obtain options where
    options: "fst (?g w) = Inr options" "path options = Some (val f)"
    by (auto simp: snapshot_reads_succeed snapshot_def)
  have g_writes: "filter is_store_write (issued ?g w) = []"
    using g(2) by (rule config_events_are_not_writes)
  have wait_ok: "fst (?wait w') = Inr ()" for w'
    using confined_issued(4) [OF confined_waitForConditions [of env page], of w'] assms(4,9,10)
    by (simp add: snapshot_reads_succeed)
  have wait_trace: "trace (snd (?wait w')) = trace w' @ issued ?wait w'" for w'
    by (rule confined_issued(1) [OF confined_waitForConditions])
  have wait_browser: "browser (snd (?wait w')) = browser w'" for w'
    by (rule confined_issued(3) [OF confined_waitForConditions])
  have wait_writes: "filter is_store_write (issued ?wait w') = []" for w'
    using confined_issued(2) [OF confined_waitForConditions [of env page], of w']
    by (rule wait_events_are_not_writes)
  show ?thesis
    using assms(1-3,6-8,11) options
    by (cases "store_write env id' (val st) True"; cases "page_close env page")
       (simp_all add: onStateChange_def onStateChange_try_def seq_newPage [where b = b]
          seq_fst_Inr [where m = ?g and w = w, OF options(1)] seq_fst_Inr [OF wait_ok]
          g(1) g(3) g_writes wait_trace wait_browser wait_writes seq_call_Inr seq_call_Inl
          log_error_def log_info_def log_debug_def setStateAsync_def call_def try_catch_def)
qed

text \<open>An instance: only the filename is configured and every collaborator succeeds.\<close>

theorem successful_capture_acknowledged_once_witness:
  "\<exists>es. trace (snd (onStateChange (cooperative filename_only) ''url'' (Some trigger) active))
          = trace active @ es \<and>
        filter is_store_write es = [SetState ''url'' (VString ''https://example.com'') True]"
proof -
  let ?env = "cooperative filename_only"
  have b: "browser active = Some 1" by (simp add: active_def)
  have t: "truthy (val trigger)" by (simp add: trigger_def)
  have a: "\<not> ack trigger" by (simp add: trigger_def)
  have s: "store_read ?env = snapshot filename_only" by (simp add: cooperative_def)
  have f: "filename_only ''filename'' = Some \<lparr>val = VString ''/tmp/out.png'', ack = True\<rparr>"
    by (simp add: filename_only_def)
  have tf: "truthy (val \<lparr>val = VString ''/tmp/out.png'', ack = True\<rparr>)" by simp
  have np: "browser_newPage ?env 1 = Inr 7" by (simp add: cooperative_def)
  have go: "page_goto ?env 7 (val trigger) = Inr ()" by (simp add: cooperative_def)
  have ws: "page_waitForSelector ?env 7 x = Inr ()" for x by (simp add: cooperative_def)
  have wt: "page_waitForTimeout ?env 7 n = Inr ()" for n by (simp add: cooperative_def)
  have sc: "page_screenshot ?env 7 options = Inr ()" for options by (simp add: cooperative_def)
  from successful_capture_acknowledged_once [OF b t a s f tf np go ws wt sc, of "''url''"]
  show ?thesis by (simp add: trigger_def)
qed

text \<open>
  What a failed navigation does in general: for a trigger over a snapshot with a
  filename, when the page opens and \<^verbatim>\<open>page.goto\<close> rejects, the run ends with the call
  that opens the page, the navigation and the error line. Nothing before them closes a
  page or writes to the store, so the page that was opened is never closed.
\<close>

lemma failed_navigation_never_closes:
  assumes "browser w = Some b" and "truthy (val st)" and "\<not> ack st"
    and "store_read env = snapshot cfg"
    and "cfg ''filename'' = Some f" and "truthy (val f)"
    and "browser_newPage env b = Inr page"
    and "page_goto env page (val st) = Inl e"
  shows "fst (onStateChange env id' (Some st) w) = Inr () \<and>
         (\<exists>es. trace (snd (onStateChange env id' (Some st) w)) =
                 trace w @ es @
                   [NewPage b, Goto page (val st),
                    LogError (CouldNotTakeScreenshot (val st) (message e))] \<and>
               filter is_page_close es = [] \<and> filter is_store_write es = [])"
proof -
  let ?g = "gatherScreenshotOptions env"
  note g = confined_issued [OF confined_gatherScreenshotOptions [of env], of w]
  from g(4) assms(4-6) obtain options where
    options: "fst (?g w) = Inr options" "path options = Some (val f)"
    by (auto simp: snapshot_reads_succeed snapshot_def)
  have g_writes: "filter is_store_write (issued ?g w) = []"
    using g(2) by (rule config_events_are_not_writes)
  have g_closes: "filter is_page_close (issued ?g w) = []"
    using g(2) by (rule config_events_are_not_closes)
  have "onStateChange env id' (Some st) w =
          (Inr (),
           (snd (?g w))\<lparr>trace := trace w @
              (issued ?g w @ [LogDebug (ScreenshotOptionsAre options),
                              LogInfo (TakingScreenshotOf (val st))]) @
              [NewPage b, Goto page (val st),
               LogError (CouldNotTakeScreenshot (val st) (message e))]\<rparr>)"
    using assms(1-3,6-8) options
    by (simp add: onStateChange_def onStateChange_try_def seq_newPage [where b = b]
          seq_fst_Inr [where m = ?g and w = w, OF options(1)]
          g(1) g(3) seq_call_Inr seq_call_Inl
          log_error_def log_info_def log_debug_def call_def try_catch_def)
  then show ?thesis
    using g_writes g_closes
    by (intro conjI
          exI [where x = "issued ?g w @ [LogDebug (ScreenshotOptionsAre options),
                                         LogInfo (TakingScreenshotOf (val st))]"])
       simp_all
qed

text \<open>
  Claim C1, at a navigation failure. The filename is configured, the page (page 7) opens
  and \<^verbatim>\<open>page.goto\<close> rejects. The run logs the error and returns: the trigger is not
  acknowledged, and \<^verbatim>\<open>page.close\<close> is not called, since the only call of it is the last
  statement of the \<^verbatim>\<open>try\<close> block.
\<close>

theorem navigation_failure_leaves_page_open:
  "onStateChange unreachable ''url'' (Some trigger) active =
     (Inr (),
      \<lparr>browser = Some 1,
       trace =
         [GetState ''filename'', GetState ''fullPage'', GetState ''clipLeft'',
          LogDebug (IgnoringClipNotConfigured ''clipLeft''),
          LogDebug (ScreenshotOptionsAre
                      \<lparr>path = Some (VString ''/tmp/out.png''), fullPage = None, clip = None\<rparr>),
          LogInfo (TakingScreenshotOf (VString ''https://example.com'')),
          NewPage 1,
          Goto 7 (VString ''https://example.com''),
          LogError (CouldNotTakeScreenshot (VString ''https://example.com'')
                      ''net::ERR_NAME_NOT_RESOLVED'')]\<rparr>) \<and>
   filter is_page_close
     (trace (snd (onStateChange unreachable ''url'' (Some trigger) active))) = []"
  by (simp add: onStateChange_def onStateChange_try_def gatherScreenshotOptions_def
      gatherScreenshotClipOptions_def clipAttributes_def newPage_def prims unreachable_def
      cooperative_def snapshot_def filename_only_def trigger_def active_def Let_def)

subsection \<open>The session handle\<close>

text \<open>
  Claim C10. \<^verbatim>\<open>onStateChange\<close> leaves the \<^verbatim>\<open>browser\<close> field as it found it, for every
  notification and whatever the collaborators answer. \<^verbatim>\<open>onReady\<close> sets the field to the
  launched browser (and leaves it alone when the launch fails); \<^verbatim>\<open>onUnload\<close> clears it
  when the browser closes (and leaves it alone when closing fails).
\<close>

theorem handlers_and_the_browser_field:
  "browser (snd (onStateChange env id' state w)) = browser w \<and>
   browser (snd (onReady env w)) =
     (case puppeteer_launch env of Inl e \<Rightarrow> browser w | Inr b \<Rightarrow> Some b) \<and>
   browser (snd (onUnload env callback w)) =
     (case browser w of
        None \<Rightarrow> None
      | Some b \<Rightarrow> (case browser_close env b of Inl e \<Rightarrow> Some b | Inr u \<Rightarrow> None))"
proof (intro conjI)
  show "browser (snd (onStateChange env id' state w)) = browser w"
    using confined_onStateChange [of env id' state] by (simp add: confined_def extends_def)
  show "browser (snd (onReady env w)) =
     (case puppeteer_launch env of Inl e \<Rightarrow> browser w | Inr b \<Rightarrow> Some b)"
    by (cases "puppeteer_launch env") (simp_all add: onReady_def prims)
  show "browser (snd (onUnload env callback w)) =
     (case browser w of
        None \<Rightarrow> None
      | Some b \<Rightarrow> (case browser_close env b of Inl e \<Rightarrow> Some b | Inr u \<Rightarrow> None))"
    by (cases "browser w"; cases "browser_close env (the (browser w))";
        cases "callback (count_list (trace w) Callback)")
       (simp_all add: onUnload_def onUnload_try_def invoke_def prims)
qed

text \<open>
  An instance: the session survives a failed navigation, is set by \<^verbatim>\<open>onReady\<close> and is
  cleared by \<^verbatim>\<open>onUnload\<close>.
\<close>

theorem handlers_and_the_browser_field_witness:
  "browser (snd (onStateChange unreachable ''url'' (Some trigger) active)) = Some 1 \<and>
   browser (snd (onReady (cooperative filename_only) torn_down)) = Some 1 \<and>
   browser (snd (onUnload (cooperative filename_only) quiet_callback active)) = None"
  using handlers_and_the_browser_field
          [where env = unreachable and id' = "''url''" and state = "Some trigger"
             and w = active]
        handlers_and_the_browser_field
          [where env = "cooperative filename_only" and w = torn_down]
        handlers_and_the_browser_field
          [where env = "cooperative filename_only" and w = active
             and callback = quiet_callback]
  by (simp add: active_def cooperative_def)

subsection \<open>Teardown\<close>

text \<open>
  Claim C9, as the code has it. When the callback does not throw, \<^verbatim>\<open>onUnload\<close> invokes
  it exactly once and returns normally, whether or not a session exists and whether or
  not closing the browser throws.
\<close>

theorem onUnload_calls_back_once:
  assumes "\<And>n. callback n = Inr ()"
  shows "fst (onUnload env callback w) = Inr () \<and>
         count_list (trace (snd (onUnload env callback w))) Callback =
           Suc (count_list (trace w) Callback)"
  using assms
  by (cases "browser w"; cases "browser_close env (the (browser w))")
     (simp_all add: onUnload_def onUnload_try_def invoke_def prims)

text \<open>Two instances: closing the browser throws; no session exists.\<close>

theorem onUnload_calls_back_once_witness:
  "browser_close stuck_browser 1 = Inl (Error ''Target closed'') \<and>
   fst (onUnload stuck_browser quiet_callback active) = Inr () \<and>
   count_list (trace (snd (onUnload stuck_browser quiet_callback active))) Callback = 1 \<and>
   fst (onUnload stuck_browser quiet_callback torn_down) = Inr () \<and>
   count_list (trace (snd (onUnload stuck_browser quiet_callback torn_down))) Callback = 1"
proof -
  have q: "quiet_callback n = Inr ()" for n by (simp add: quiet_callback_def)
  have c: "browser_close stuck_browser 1 = Inl (Error ''Target closed'')"
    by (simp add: stuck_browser_def)
  from c onUnload_calls_back_once [of quiet_callback stuck_browser active, OF q]
    onUnload_calls_back_once [of quiet_callback stuck_browser torn_down, OF q]
  show ?thesis by (simp add: active_def torn_down_def)
qed

text \<open>
  Claim C9 as stated puts no condition on the callback for the count. A callback that
  throws inside the \<^verbatim>\<open>try\<close> block is invoked a second time by the \<^verbatim>\<open>catch\<close> block.
\<close>

theorem onUnload_throwing_callback_twice:
  "count_list
     (trace (snd (onUnload (cooperative filename_only) throwing_callback active))) Callback = 2"
  by (simp add: onUnload_def onUnload_try_def invoke_def prims cooperative_def active_def
      throwing_callback_def)

end
